theory Spec2Isabelle
  imports Complex_Main "HOL-Library.Word"
begin

section \<open>Output file names (buildOutputName, sanitizeBaseName)\<close>

text \<open>
  A file name is a \<^typ>\<open>string\<close>: one \<^typ>\<open>char\<close> per code unit, read as Latin-1.
  The regular expressions of \<^verbatim>\<open>sanitizeBaseName\<close> have no \<^verbatim>\<open>u\<close> flag and name
  ASCII characters only, so a code unit of 256 or more is treated by them exactly as
  the characters 128 to 255 are: it is outside every class they test.
\<close>

definition isAlnum :: "char \<Rightarrow> bool" where
  \<comment> \<open>the ranges \<^verbatim>\<open>a-z\<close>, \<^verbatim>\<open>A-Z\<close>, \<^verbatim>\<open>0-9\<close> of the character class\<close>
  "isAlnum c = (let n = (of_char c :: nat) in
     (97 \<le> n \<and> n \<le> 122) \<or> (65 \<le> n \<and> n \<le> 90) \<or> (48 \<le> n \<and> n \<le> 57))"

definition isWordChar :: "char \<Rightarrow> bool" where
  \<comment> \<open>membership in \<^verbatim>\<open>[a-zA-Z0-9-_]\<close>\<close>
  "isWordChar c = (isAlnum c \<or> c = CHR ''-'' \<or> c = CHR ''_'')"

definition isUnderscore :: "char \<Rightarrow> bool" where
  "isUnderscore c = (c = CHR ''_'')"

definition notWordChar :: "char \<Rightarrow> bool" where
  "notWordChar c = (if isWordChar c then False else True)"

definition extChar :: "char \<Rightarrow> bool" where
  \<comment> \<open>membership in \<^verbatim>\<open>[^/.]\<close>\<close>
  "extChar c = (if c = CHR ''/'' then False else if c = CHR ''.'' then False else True)"

fun stripExtension :: "string \<Rightarrow> string" where
  \<comment> \<open>\<^verbatim>\<open>.replace(/\.[^/.]+$/, '')\<close>: the leftmost position where a dot is followed, up to
      the end of the name, by one or more characters that are neither slash nor dot;
      the match reaches the end, so nothing is kept after it\<close>
  "stripExtension [] = []"
| "stripExtension (c # cs) =
     (if c = CHR ''.'' \<and> cs \<noteq> [] \<and> list_all extChar cs then []
      else c # stripExtension cs)"

function replaceNonWordRuns :: "string \<Rightarrow> string" where
  \<comment> \<open>\<^verbatim>\<open>.replace(/[^a-zA-Z0-9-_]+/g, '_')\<close>: each maximal run outside the class becomes
      one underscore\<close>
  "replaceNonWordRuns [] = []"
| "replaceNonWordRuns (c # cs) =
     (if isWordChar c then c # replaceNonWordRuns cs
      else CHR ''_'' # replaceNonWordRuns (dropWhile notWordChar cs))"
  by pat_completeness auto
termination
  by (relation "measure length") (auto simp: less_Suc_eq_le length_dropWhile_le)

function collapseUnderscores :: "string \<Rightarrow> string" where
  \<comment> \<open>\<^verbatim>\<open>.replace(/_{2,}/g, '_')\<close>: a run of two or more underscores becomes one\<close>
  "collapseUnderscores [] = []"
| "collapseUnderscores (c # cs) =
     (if isUnderscore c \<and> cs \<noteq> [] \<and> isUnderscore (hd cs)
      then CHR ''_'' # collapseUnderscores (dropWhile isUnderscore cs)
      else c # collapseUnderscores cs)"
  by pat_completeness auto
termination
  by (relation "measure length") (auto simp: less_Suc_eq_le length_dropWhile_le)

definition trimUnderscores :: "string \<Rightarrow> string" where
  \<comment> \<open>\<^verbatim>\<open>.replace(/^_+|_+$/g, '')\<close>: the run of underscores at the start and the run at
      the end are removed; a run in the middle matches neither alternative\<close>
  "trimUnderscores s = rev (dropWhile isUnderscore (rev (dropWhile isUnderscore s)))"

fun toLowerChar :: "char \<Rightarrow> char" where
  \<comment> \<open>\<^verbatim>\<open>toLowerCase\<close> on one Latin-1 code unit: \<^verbatim>\<open>A-Z\<close> and the capitals 192 to 222
      (215, the multiplication sign, apart) move up by 32, which sets the bit of
      weight 32; every other code unit below 256 is its own lower case\<close>
  "toLowerChar (Char b0 b1 b2 b3 b4 b5 b6 b7) =
     (let n = (of_char (Char b0 b1 b2 b3 b4 b5 b6 b7) :: nat) in
      if (65 \<le> n \<and> n \<le> 90) \<or> (192 \<le> n \<and> n \<le> 222 \<and> n \<noteq> 215)
      then Char b0 b1 b2 b3 b4 True b6 b7
      else Char b0 b1 b2 b3 b4 b5 b6 b7)"

definition toLowerCase :: "string \<Rightarrow> string" where
  "toLowerCase s = map toLowerChar s"

definition sanitizeBaseName :: "string \<Rightarrow> string" where
  "sanitizeBaseName name =
     take 64 (toLowerCase (trimUnderscores (collapseUnderscores
       (replaceNonWordRuns (stripExtension name)))))"

definition buildOutputName :: "string \<Rightarrow> string \<Rightarrow> string" where
  \<comment> \<open>\<^verbatim>\<open>sanitizeBaseName(originalName) || 'audio'\<close>: the empty string is falsy\<close>
  "buildOutputName originalName extension =
     (let safeBase = (if sanitizeBaseName originalName = [] then ''audio''
                      else sanitizeBaseName originalName)
      in safeBase @ extension)"

text \<open>
  The naming rule in the words of the specification: strip the extension, replace every
  run of characters outside alphanumeric, dash and underscore by one underscore, trim
  the underscores at both ends, lower-case, truncate to 64, default to "audio", append
  the extension. The steps the words share with the code reuse the code's functions.
\<close>

definition spec_buildOutputName :: "string \<Rightarrow> string \<Rightarrow> string" where
  "spec_buildOutputName originalName extension =
     (let base = take 64 (toLowerCase (trimUnderscores
                   (replaceNonWordRuns (stripExtension originalName))))
      in (if base = [] then ''audio'' else base) @ extension)"

text \<open>
  The separators of the name as one pass: a character that is neither alphanumeric nor
  a dash separates, an underscore included, and each maximal run of separators becomes
  one underscore.
\<close>

definition isSeparator :: "char \<Rightarrow> bool" where
  "isSeparator c = (if isAlnum c \<or> c = CHR ''-'' then False else True)"

function spec_squeezeSeparators :: "string \<Rightarrow> string" where
  "spec_squeezeSeparators [] = []"
| "spec_squeezeSeparators (c # cs) =
     (if isSeparator c then CHR ''_'' # spec_squeezeSeparators (dropWhile isSeparator cs)
      else c # spec_squeezeSeparators cs)"
  by pat_completeness auto
termination
  by (relation "measure length") (auto simp: less_Suc_eq_le length_dropWhile_le)

section \<open>Failure descriptions (describeInvalidConversion, humanizeReason)\<close>

text \<open>
  \<^verbatim>\<open>DiscardedTrack['reason']\<close> is the engine's closed set of six codes; any other
  string is an \<open>unlisted_reason\<close>. The table of \<^verbatim>\<open>humanizeReason\<close> is an object literal,
  keyed by the code and read with \<^verbatim>\<open>mapping[reason] ?? ...\<close>: the read finds the six
  entries of the table, then the members the table inherits from \<^verbatim>\<open>Object.prototype\<close>
  (none of them null or undefined), and only a code that names neither reaches the
  default. How a platform renders an inherited member in the template is its own
  choice, so an unlisted code comes with that text; it is read only when the code names
  an inherited member. The engine's track type is taken as the string the template
  interpolates.
\<close>

datatype discard_reason =
    discarded_by_user
  | max_track_count_reached
  | max_track_count_of_type_reached
  | unknown_source_codec
  | undecodable_source_codec
  | no_encodable_target_codec
  | unlisted_reason string string

record DiscardedTrack =
  track_type :: string
  reason :: discard_reason

fun reasonCode :: "discard_reason \<Rightarrow> string" where
  \<comment> \<open>the string that is the reason\<close>
  "reasonCode discarded_by_user = ''discarded_by_user''"
| "reasonCode max_track_count_reached = ''max_track_count_reached''"
| "reasonCode max_track_count_of_type_reached = ''max_track_count_of_type_reached''"
| "reasonCode unknown_source_codec = ''unknown_source_codec''"
| "reasonCode undecodable_source_codec = ''undecodable_source_codec''"
| "reasonCode no_encodable_target_codec = ''no_encodable_target_codec''"
| "reasonCode (unlisted_reason code rendering) = code"

definition mapping :: "(string \<times> string) list" where
  "mapping =
    [(''discarded_by_user'', ''discarded by configuration''),
     (''max_track_count_reached'', ''output format limit reached''),
     (''max_track_count_of_type_reached'', ''too many tracks of this type for the output format''),
     (''unknown_source_codec'', ''unknown source codec''),
     (''undecodable_source_codec'', ''source codec not decodable in this browser''),
     (''no_encodable_target_codec'', ''no compatible encoder available'')]"

definition objectPrototypeKeys :: "string list" where
  \<comment> \<open>the names of the members of \<^verbatim>\<open>Object.prototype\<close>\<close>
  "objectPrototypeKeys =
    [''constructor'', ''hasOwnProperty'', ''isPrototypeOf'', ''propertyIsEnumerable'',
     ''toLocaleString'', ''toString'', ''valueOf'', ''__proto__'', ''__defineGetter__'',
     ''__defineSetter__'', ''__lookupGetter__'', ''__lookupSetter__'']"

definition inheritedMember :: "discard_reason \<Rightarrow> string option" where
  "inheritedMember r =
     (case r of
        unlisted_reason code rendering \<Rightarrow>
          (if code \<in> set objectPrototypeKeys then Some rendering else None)
      | _ \<Rightarrow> None)"

definition mappingAt :: "discard_reason \<Rightarrow> string option" where
  \<comment> \<open>\<^verbatim>\<open>mapping[reason]\<close>: an own entry first, an inherited member next\<close>
  "mappingAt r =
     (case map_of mapping (reasonCode r) of
        Some phrase \<Rightarrow> Some phrase
      | None \<Rightarrow> inheritedMember r)"

definition humanizeReason :: "discard_reason \<Rightarrow> string" where
  "humanizeReason r = (case mappingAt r of Some found \<Rightarrow> found | None \<Rightarrow> ''unsupported track'')"

fun join :: "string \<Rightarrow> string list \<Rightarrow> string" where
  \<comment> \<open>\<^verbatim>\<open>Array.prototype.join\<close>\<close>
  "join sep [] = []"
| "join sep [x] = x"
| "join sep (x # y # ys) = x @ sep @ join sep (y # ys)"

definition trackClause :: "DiscardedTrack \<Rightarrow> string" where
  "trackClause d = track_type d @ '' track discarded ('' @ humanizeReason (reason d) @ '')''"

definition describeInvalidConversion :: "DiscardedTrack list \<Rightarrow> string" where
  "describeInvalidConversion discarded =
     (if length discarded = 0 then ''Unable to convert this file with Mediabunny.''
      else (let details = join ''; '' (map trackClause discarded)
            in ''Unable to convert this file: '' @ details @ ''.''))"

text \<open>
  The phrase table in the words of the specification (its phrase for an undecodable
  source codec reads "runtime"), and the table as the code has it, written as equations;
  the rendering of the clauses with the separator before every clause but the first.
\<close>

fun spec_reasonPhrase :: "discard_reason \<Rightarrow> string" where
  "spec_reasonPhrase discarded_by_user = ''discarded by configuration''"
| "spec_reasonPhrase max_track_count_reached = ''output format limit reached''"
| "spec_reasonPhrase max_track_count_of_type_reached =
     ''too many tracks of this type for the output format''"
| "spec_reasonPhrase unknown_source_codec = ''unknown source codec''"
| "spec_reasonPhrase undecodable_source_codec = ''source codec not decodable in this runtime''"
| "spec_reasonPhrase no_encodable_target_codec = ''no compatible encoder available''"
| "spec_reasonPhrase (unlisted_reason code rendering) = ''unsupported track''"

fun browser_reasonPhrase :: "discard_reason \<Rightarrow> string" where
  "browser_reasonPhrase undecodable_source_codec = ''source codec not decodable in this browser''"
| "browser_reasonPhrase r = spec_reasonPhrase r"

definition plainReason :: "discard_reason \<Rightarrow> bool" where
  \<comment> \<open>one of the six codes, or a code that names no entry of the table and no member of
      \<^verbatim>\<open>Object.prototype\<close>\<close>
  "plainReason r =
     (case r of
        unlisted_reason code rendering \<Rightarrow>
          map_of mapping code = None \<and> code \<notin> set objectPrototypeKeys
      | _ \<Rightarrow> True)"

definition spec_clause :: "(discard_reason \<Rightarrow> string) \<Rightarrow> DiscardedTrack \<Rightarrow> string" where
  "spec_clause phrase d = track_type d @ '' track discarded ('' @ phrase (reason d) @ '')''"

fun spec_clauses :: "(discard_reason \<Rightarrow> string) \<Rightarrow> DiscardedTrack list \<Rightarrow> string" where
  "spec_clauses phrase [] = []"
| "spec_clauses phrase (d # ds) =
     spec_clause phrase d @ concat (map (\<lambda>e. ''; '' @ spec_clause phrase e) ds)"

section \<open>The format catalog and the capability probe\<close>

datatype AudioOutputFormatId = mp3 | wav | ogg | aac | flac

datatype codec = codec_mp3 | codec_pcm_s16 | codec_opus | codec_aac | codec_flac

datatype OutputFormat =
    Mp3OutputFormat | WavOutputFormat bool | OggOutputFormat | AdtsOutputFormat | FlacOutputFormat

record ConversionAudioOptions =
  options_codec :: codec
  bitrate :: "nat option"
  sampleRate :: "nat option"
  numberOfChannels :: "nat option"

record AudioFormatSpec =
  label :: string
  description :: string
  extension :: string
  mimeType :: string
  codec :: codec
  alwaysAvailable :: "bool option"
  unsupportedMessage :: "string option"
  createFormat :: OutputFormat
  audioOptions :: ConversionAudioOptions

fun AUDIO_FORMAT_SPECS :: "AudioOutputFormatId \<Rightarrow> AudioFormatSpec option" where
  \<comment> \<open>the lookup \<^verbatim>\<open>AUDIO_FORMAT_SPECS[formatId]\<close>; every id of the type has an entry\<close>
  "AUDIO_FORMAT_SPECS mp3 = Some
     \<lparr>label = ''MP3'', description = ''Best compatibility and small file size.'',
      extension = ''.mp3'', mimeType = ''audio/mpeg'', codec = codec_mp3,
      alwaysAvailable = Some True, unsupportedMessage = None,
      createFormat = Mp3OutputFormat,
      audioOptions = \<lparr>options_codec = codec_mp3, bitrate = Some 192000,
                      sampleRate = None, numberOfChannels = None\<rparr>\<rparr>"
| "AUDIO_FORMAT_SPECS wav = Some
     \<lparr>label = ''WAV'', description = ''Uncompressed PCM for editing.'',
      extension = ''.wav'', mimeType = ''audio/wav'', codec = codec_pcm_s16,
      alwaysAvailable = Some True, unsupportedMessage = None,
      createFormat = WavOutputFormat True,
      audioOptions = \<lparr>options_codec = codec_pcm_s16, bitrate = None,
                      sampleRate = Some 48000, numberOfChannels = Some 2\<rparr>\<rparr>"
| "AUDIO_FORMAT_SPECS ogg = Some
     \<lparr>label = ''OGG (Opus)'', description = ''High quality streaming friendly files.'',
      extension = ''.ogg'', mimeType = ''application/ogg'', codec = codec_opus,
      alwaysAvailable = None,
      unsupportedMessage = Some
        ''This browser cannot encode Opus audio yet. Try Chrome 116+, Firefox 130+, or use MP3/WAV.'',
      createFormat = OggOutputFormat,
      audioOptions = \<lparr>options_codec = codec_opus, bitrate = Some 128000,
                      sampleRate = Some 48000, numberOfChannels = None\<rparr>\<rparr>"
| "AUDIO_FORMAT_SPECS aac = Some
     \<lparr>label = ''AAC'', description = ''Great for iOS and Safari playback.'',
      extension = ''.aac'', mimeType = ''audio/aac'', codec = codec_aac,
      alwaysAvailable = None,
      unsupportedMessage = Some
        ''AAC encoding needs native WebCodecs support (Safari 17+, Chrome 120+ with flags).'',
      createFormat = AdtsOutputFormat,
      audioOptions = \<lparr>options_codec = codec_aac, bitrate = Some 192000,
                      sampleRate = None, numberOfChannels = None\<rparr>\<rparr>"
| "AUDIO_FORMAT_SPECS flac = Some
     \<lparr>label = ''FLAC'', description = ''Lossless compression with smaller size than WAV.'',
      extension = ''.flac'', mimeType = ''audio/flac'', codec = codec_flac,
      alwaysAvailable = None,
      unsupportedMessage = Some
        ''FLAC encoding is still experimental in WebCodecs. Use WAV for lossless audio in this browser.'',
      createFormat = FlacOutputFormat,
      audioOptions = \<lparr>options_codec = codec_flac, bitrate = None,
                      sampleRate = None, numberOfChannels = None\<rparr>\<rparr>"

fun formatIdText :: "AudioOutputFormatId \<Rightarrow> string" where
  "formatIdText mp3 = ''mp3''"
| "formatIdText wav = ''wav''"
| "formatIdText ogg = ''ogg''"
| "formatIdText aac = ''aac''"
| "formatIdText flac = ''flac''"

text \<open>
  \<^verbatim>\<open>canEncodeAudio\<close> belongs to the engine: what it answers is the environment's choice,
  given with the call that may issue it. A \<^verbatim>\<open>Promise<boolean>\<close> of the cache is
  modelled by the value it settles to; \<^verbatim>\<open>checkCodecSupport\<close> catches every failure of
  the probe, so the promise stored never rejects and the outer \<^verbatim>\<open>.catch\<close> has nothing
  to turn into \<open>False\<close>. The calls of the probe are logged in \<open>probes\<close>.
\<close>

datatype probe_outcome = ProbeResolves bool | ProbeThrows

section \<open>The conversion service\<close>

subsection \<open>Values of the platform and of the engine\<close>

type_synonym byte = "8 word"

text \<open>
  A JavaScript number is the real it denotes, or one of the three values that denote
  none; the two zeros are not told apart. \<^verbatim>\<open>Math.max\<close> and \<^verbatim>\<open>Math.min\<close> return
  \<^verbatim>\<open>NaN\<close> as soon as an argument is \<^verbatim>\<open>NaN\<close> and round nothing.
\<close>

datatype jsnum = NaN | NegInfinity | Finite real | PosInfinity

fun Math_max :: "jsnum \<Rightarrow> jsnum \<Rightarrow> jsnum" where
  "Math_max NaN b = NaN"
| "Math_max a NaN = NaN"
| "Math_max PosInfinity b = PosInfinity"
| "Math_max a PosInfinity = PosInfinity"
| "Math_max NegInfinity b = b"
| "Math_max a NegInfinity = a"
| "Math_max (Finite x) (Finite y) = Finite (max x y)"

fun Math_min :: "jsnum \<Rightarrow> jsnum \<Rightarrow> jsnum" where
  "Math_min NaN b = NaN"
| "Math_min a NaN = NaN"
| "Math_min NegInfinity b = NegInfinity"
| "Math_min a NegInfinity = NegInfinity"
| "Math_min PosInfinity b = b"
| "Math_min a PosInfinity = a"
| "Math_min (Finite x) (Finite y) = Finite (min x y)"

datatype thrown = Error string | DOMException string string

record File =
  name :: string

record Blob =
  blob_bytes :: "byte list"
  blob_type :: string

record ConversionResult =
  fileName :: string
  blob :: Blob
  remoteUrl :: "string option"
  mimeType :: string

record Conversion =
  isValid :: bool
  discardedTracks :: "DiscardedTrack list"

datatype engine_call =
    NewInput | NewOutput OutputFormat | GetFormat | Init ConversionAudioOptions
  | Execute | CancelConversion | Dispose

definition hexDigit :: "nat \<Rightarrow> char" where
  "hexDigit n = ''0123456789abcdef'' ! n"

definition hexByte :: "byte \<Rightarrow> string" where
  \<comment> \<open>\<^verbatim>\<open>byte.toString(16).padStart(2, '0')\<close>\<close>
  "hexByte b = [hexDigit (unat b div 16), hexDigit (unat b mod 16)]"

subsection \<open>One call of convert\<close>

text \<open>
  \<^verbatim>\<open>convert\<close> is an \<^verbatim>\<open>async\<close> function: it runs from one \<^verbatim>\<open>await\<close> to the next without
  interruption and is suspended in between. A call is a \<open>Call\<close> record: the point
  where it is suspended (\<open>pc\<close>, with the locals \<^verbatim>\<open>spec\<close> and \<^verbatim>\<open>inMemoryCopy\<close> alive
  there), the locals its \<^verbatim>\<open>cancel\<close> closure shares with it, and what it has done so
  far: the lines given to \<^verbatim>\<open>onLog\<close>, the ratios given to \<^verbatim>\<open>onProgress\<close>, the engine
  operations it invoked, and how its promise settled. \<open>cancelReject\<close> tells whether
  the variable still holds the reject function, \<open>cancelPromise\<close> whether the promise
  has been rejected, \<open>onProgress\<close> whether the handler is installed on the conversion.
\<close>

datatype pc =
    AwaitSupport AudioFormatSpec bool
  | AwaitArrayBuffer AudioFormatSpec
  | AwaitGetFormat AudioFormatSpec "byte list"
  | AwaitInit AudioFormatSpec
  | AwaitRace AudioFormatSpec
  | Returned

record Call =
  sourceFile :: File
  formatId :: AudioOutputFormatId
  pc :: pc
  conversion :: "Conversion option"
  cancelRequested :: bool
  cancelReject :: bool
  cancelPromise :: bool
  onProgress :: bool
  logs :: "string list"
  progress :: "jsnum list"
  engineCalls :: "engine_call list"
  settled :: "(thrown + ConversionResult) option"

text \<open>What the environment answers when a suspended call is resumed.\<close>

datatype payload =
    SupportSettled
  | ArrayBufferFulfilled "byte list"
  | ArrayBufferRejected thrown
  | GetFormatFulfilled "string option" "string option"
  | GetFormatRejected thrown
  | InitFulfilled Conversion
  | InitRejected thrown
  | ExecuteFulfilled "byte list option"
  | ExecuteRejected thrown
  | CancelPromiseRejected

datatype marker = Keep | SetActive | ClearActive

definition onLog :: "string \<Rightarrow> Call \<Rightarrow> Call" where
  "onLog message c = c\<lparr>logs := logs c @ [message]\<rparr>"

definition relay :: "jsnum \<Rightarrow> Call \<Rightarrow> Call" where
  \<comment> \<open>\<^verbatim>\<open>callbacks?.onProgress?.(ratio)\<close>\<close>
  "relay ratio c = c\<lparr>progress := progress c @ [ratio]\<rparr>"

definition invoke :: "engine_call \<Rightarrow> Call \<Rightarrow> Call" where
  "invoke e c = c\<lparr>engineCalls := engineCalls c @ [e]\<rparr>"

definition cancel :: "Call \<Rightarrow> Call" where
  \<comment> \<open>the closure \<^verbatim>\<open>cancel\<close> of one call\<close>
  "cancel c =
     (if cancelRequested c then c
      else
        (let c1 = onLog ''Cancel requested. Stopping conversion...'' (c\<lparr>cancelRequested := True\<rparr>);
             c2 = (if conversion c1 \<noteq> None then invoke CancelConversion c1 else c1)
         in (if cancelReject c2 then c2\<lparr>cancelPromise := True, cancelReject := False\<rparr> else c2)))"

definition progressHandler :: "jsnum \<Rightarrow> Call \<Rightarrow> Call" where
  \<comment> \<open>the function assigned to \<^verbatim>\<open>conversion.onProgress\<close>\<close>
  "progressHandler v c =
     (if cancelRequested c then c
      else (let clamped = Math_min (Math_max v (Finite 0)) (Finite 1) in relay clamped c))"

definition finallyBlock :: "(thrown + ConversionResult) \<Rightarrow> Call \<Rightarrow> Call \<times> marker" where
  \<comment> \<open>leaving the \<^verbatim>\<open>try\<close> block: the marker is cleared, the input disposed, and the
      promise settles with the thrown value or the returned result\<close>
  "finallyBlock outcome c = ((invoke Dispose c)\<lparr>pc := Returned, settled := Some outcome\<rparr>, ClearActive)"

definition throw :: "thrown \<Rightarrow> Call \<Rightarrow> Call \<times> marker" where
  \<comment> \<open>a throw before the \<^verbatim>\<open>try\<close> block\<close>
  "throw e c = (c\<lparr>pc := Returned, settled := Some (Inl e)\<rparr>, Keep)"

definition cancelled :: thrown where
  "cancelled = DOMException ''Conversion cancelled.'' ''AbortError''"

definition unsupportedText :: "AudioFormatSpec \<Rightarrow> string" where
  "unsupportedText sp =
     (case unsupportedMessage sp of
        Some message \<Rightarrow> message
      | None \<Rightarrow> label sp @ '' encoding is not supported in this browser yet. Try MP3, WAV, or OGG instead.'')"

definition afterSupport :: "AudioFormatSpec \<Rightarrow> bool \<Rightarrow> Call \<Rightarrow> Call \<times> marker" where
  "afterSupport sp supported c =
     (if \<not> supported then throw (Error (unsupportedText sp)) c
      else ((onLog ''Loading file into memory for Mediabunny analysis...'' c)
              \<lparr>pc := AwaitArrayBuffer sp\<rparr>, Keep))"

definition afterArrayBuffer :: "AudioFormatSpec \<Rightarrow> byte list \<Rightarrow> Call \<Rightarrow> Call \<times> marker" where
  \<comment> \<open>from \<^verbatim>\<open>new Input\<close> to \<^verbatim>\<open>await input.getFormat()\<close>; the marker is set on the way\<close>
  "afterArrayBuffer sp inMemoryCopy c =
     (let c1 = invoke (NewOutput (createFormat sp)) (invoke NewInput c);
          c2 = c1\<lparr>conversion := None, cancelRequested := False,
                  cancelReject := True, cancelPromise := False\<rparr>;
          c3 = relay (Finite 0) c2;
          c4 = onLog (''Loading '' @ [CHR 0x22] @ name (sourceFile c) @ [CHR 0x22]
                        @ '' with Mediabunny...'') c3
      in ((invoke GetFormat c4)\<lparr>pc := AwaitGetFormat sp inMemoryCopy\<rparr>, SetActive))"

definition afterGetFormat ::
  "AudioFormatSpec \<Rightarrow> string option \<Rightarrow> string option \<Rightarrow> Call \<Rightarrow> Call \<times> marker" where
  "afterGetFormat sp formatName constructorName c =
     (let detectedFormatName =
            (case formatName of
               Some n \<Rightarrow> n
             | None \<Rightarrow> (case constructorName of Some n \<Rightarrow> n | None \<Rightarrow> ''unknown''));
          c1 = onLog (''Detected container: '' @ detectedFormatName @ ''.'') c
      in ((invoke (Init (audioOptions sp)) c1)\<lparr>pc := AwaitInit sp\<rparr>, Keep))"

definition getFormatFailed :: "byte list \<Rightarrow> thrown \<Rightarrow> Call \<Rightarrow> Call \<times> marker" where
  "getFormatFailed inMemoryCopy formatError c =
     (let headerBytes = join '' '' (map hexByte (take 32 inMemoryCopy))
      in finallyBlock (Inl formatError)
           (onLog (''Unable to detect the container format from the file header. First 32 bytes: ''
                    @ headerBytes) c))"

definition afterInit :: "AudioFormatSpec \<Rightarrow> Conversion \<Rightarrow> Call \<Rightarrow> Call \<times> marker" where
  \<comment> \<open>from the assignment of \<^verbatim>\<open>conversion\<close> to \<^verbatim>\<open>await Promise.race(...)\<close>\<close>
  "afterInit sp conv c =
     (let c1 = c\<lparr>conversion := Some conv\<rparr> in
      if \<not> isValid conv then
        (if length (discardedTracks conv) = 0
         then finallyBlock (Inl (Error
                ''Mediabunny rejected the file: unrecognized or unsupported audio/video tracks.'')) c1
         else finallyBlock (Inl (Error (describeInvalidConversion (discardedTracks conv)))) c1)
      else
        (let c2 = (if cancelRequested c1 then cancel c1 else c1);
             c3 = c2\<lparr>onProgress := True\<rparr>;
             c4 = onLog ''Transcoding audio to MP3 with Mediabunny...'' c3
         in ((invoke Execute c4)\<lparr>pc := AwaitRace sp\<rparr>, Keep)))"

definition afterExecute :: "AudioFormatSpec \<Rightarrow> byte list option \<Rightarrow> Call \<Rightarrow> Call \<times> marker" where
  \<comment> \<open>the race was won by \<^verbatim>\<open>conversion.execute()\<close>; \<^verbatim>\<open>!buffer\<close> holds of \<^verbatim>\<open>null\<close> only,
      an \<^verbatim>\<open>ArrayBuffer\<close> of length zero is an object and truthy\<close>
  "afterExecute sp buffer c =
     (if cancelRequested c then finallyBlock (Inl cancelled) c
      else
        (case buffer of
           None \<Rightarrow> finallyBlock (Inl (Error ''Mediabunny did not return any audio bytes.'')) c
         | Some bytes \<Rightarrow>
             (let blob = \<lparr>blob_bytes = bytes, blob_type = AudioFormatSpec.mimeType sp\<rparr>;
                  c1 = relay (Finite 1) c;
                  c2 = onLog ''Conversion finished.'' c1
              in finallyBlock
                   (Inr \<lparr>fileName = buildOutputName (name (sourceFile c)) (extension sp),
                         blob = blob, remoteUrl = None,
                         mimeType = AudioFormatSpec.mimeType sp\<rparr>) c2)))"

definition resume :: "payload \<Rightarrow> Call \<Rightarrow> Call \<times> marker" where
  \<comment> \<open>the call runs on from its \<^verbatim>\<open>await\<close>, when the answer is one that \<^verbatim>\<open>await\<close> can
      get; the rejected \<^verbatim>\<open>cancelPromise\<close> can win the race only once it is rejected\<close>
  "resume p c =
     (case (pc c, p) of
        (AwaitSupport sp supported, SupportSettled) \<Rightarrow> afterSupport sp supported c
      | (AwaitArrayBuffer sp, ArrayBufferFulfilled bytes) \<Rightarrow> afterArrayBuffer sp bytes c
      | (AwaitArrayBuffer sp, ArrayBufferRejected e) \<Rightarrow> throw e c
      | (AwaitGetFormat sp bytes, GetFormatFulfilled n cn) \<Rightarrow> afterGetFormat sp n cn c
      | (AwaitGetFormat sp bytes, GetFormatRejected e) \<Rightarrow> getFormatFailed bytes e c
      | (AwaitInit sp, InitFulfilled conv) \<Rightarrow> afterInit sp conv c
      | (AwaitInit sp, InitRejected e) \<Rightarrow> finallyBlock (Inl e) c
      | (AwaitRace sp, ExecuteFulfilled buffer) \<Rightarrow> afterExecute sp buffer c
      | (AwaitRace sp, ExecuteRejected e) \<Rightarrow> finallyBlock (Inl e) c
      | (AwaitRace sp, CancelPromiseRejected) \<Rightarrow>
          (if cancelPromise c then finallyBlock (Inl cancelled) c else (c, Keep))
      | _ \<Rightarrow> (c, Keep))"

subsection \<open>The service and its events\<close>

text \<open>
  The service holds \<^verbatim>\<open>activeCancel\<close> (the closure of one call, given by the position of
  that call in \<open>calls\<close>), the cache \<^verbatim>\<open>supportChecks\<close>, and every call of
  \<^verbatim>\<open>convert\<close> made so far. JavaScript runs one thing at a time, so the service moves by
  events: a new call of \<^verbatim>\<open>convert\<close> (which runs to its first \<^verbatim>\<open>await\<close>), a suspended
  call resumed, \<^verbatim>\<open>cancelConversion\<close>, and a progress value from the engine.
\<close>

record Service =
  activeCancel :: "nat option"
  supportChecks :: "(AudioOutputFormatId \<times> bool) list"
  probes :: "codec list"
  calls :: "Call list"

definition checkCodecSupport :: "probe_outcome \<Rightarrow> codec \<Rightarrow> Service \<Rightarrow> bool \<times> Service" where
  "checkCodecSupport env cd s =
     (if cd = codec_pcm_s16 then (True, s)
      else (case env of
              ProbeResolves b \<Rightarrow> (b, s\<lparr>probes := probes s @ [cd]\<rparr>)
            | ProbeThrows \<Rightarrow> (False, s\<lparr>probes := probes s @ [cd]\<rparr>)))"

definition mapSet :: "'k \<Rightarrow> 'v \<Rightarrow> ('k \<times> 'v) list \<Rightarrow> ('k \<times> 'v) list" where
  \<comment> \<open>\<^verbatim>\<open>Map.prototype.set\<close>: the entry of the key is replaced where it stands, a new key
      goes last\<close>
  "mapSet k v m = (if map_of m k = None then m @ [(k, v)] else map (\<lambda>e. if fst e = k then (k, v) else e) m)"

definition isFormatSupported ::
  "probe_outcome \<Rightarrow> AudioOutputFormatId \<Rightarrow> Service \<Rightarrow> bool \<times> Service" where
  "isFormatSupported env fid s =
     (case AUDIO_FORMAT_SPECS fid of
        None \<Rightarrow> (False, s)
      | Some sp \<Rightarrow>
          (if alwaysAvailable sp = Some True then (True, s)
           else (case map_of (supportChecks s) fid of
                   Some promise \<Rightarrow> (promise, s)
                 | None \<Rightarrow>
                     (let (promise, s1) = checkCodecSupport env (codec sp) s
                      in (promise, s1\<lparr>supportChecks := mapSet fid promise (supportChecks s1)\<rparr>)))))"

definition newCall :: "File \<Rightarrow> AudioOutputFormatId \<Rightarrow> Call" where
  "newCall f fid =
     \<lparr>sourceFile = f, formatId = fid, pc = Returned, conversion = None, cancelRequested = False,
      cancelReject = False, cancelPromise = False, onProgress = False, logs = [],
      progress = [], engineCalls = [], settled = None\<rparr>"

definition convert :: "File \<Rightarrow> AudioOutputFormatId \<Rightarrow> probe_outcome \<Rightarrow> Service \<Rightarrow> Service" where
  \<comment> \<open>\<^verbatim>\<open>convert\<close> up to \<^verbatim>\<open>await this.isFormatSupported(formatId)\<close>\<close>
  "convert f fid env s =
     (if activeCancel s \<noteq> None
      then s\<lparr>calls := calls s @
               [fst (throw (Error ''Another conversion is already in progress.'') (newCall f fid))]\<rparr>
      else (case AUDIO_FORMAT_SPECS fid of
              None \<Rightarrow> s\<lparr>calls := calls s @
                [fst (throw (Error (''Unsupported output format: '' @ formatIdText fid)) (newCall f fid))]\<rparr>
            | Some sp \<Rightarrow>
                (let (supported, s1) = isFormatSupported env fid s
                 in s1\<lparr>calls := calls s1 @ [(newCall f fid)\<lparr>pc := AwaitSupport sp supported\<rparr>]\<rparr>)))"

definition setMarker :: "nat \<Rightarrow> marker \<Rightarrow> nat option \<Rightarrow> nat option" where
  "setMarker i m a = (case m of Keep \<Rightarrow> a | SetActive \<Rightarrow> Some i | ClearActive \<Rightarrow> None)"

definition resumeCall :: "nat \<Rightarrow> payload \<Rightarrow> Service \<Rightarrow> Service" where
  "resumeCall i p s =
     (if i < length (calls s)
      then (let (c, m) = resume p (calls s ! i)
            in s\<lparr>calls := (calls s)[i := c], activeCancel := setMarker i m (activeCancel s)\<rparr>)
      else s)"

definition cancelConversion :: "Service \<Rightarrow> Service" where
  \<comment> \<open>\<^verbatim>\<open>this.activeCancel?.()\<close>\<close>
  "cancelConversion s =
     (case activeCancel s of
        None \<Rightarrow> s
      | Some i \<Rightarrow> (if i < length (calls s) then s\<lparr>calls := (calls s)[i := cancel (calls s ! i)]\<rparr> else s))"

definition engineProgress :: "nat \<Rightarrow> jsnum \<Rightarrow> Service \<Rightarrow> Service" where
  \<comment> \<open>the engine invokes \<^verbatim>\<open>conversion.onProgress\<close> of a call, if a handler is installed\<close>
  "engineProgress i v s =
     (if i < length (calls s) \<and> onProgress (calls s ! i)
      then s\<lparr>calls := (calls s)[i := progressHandler v (calls s ! i)]\<rparr>
      else s)"

datatype event =
    ConvertCalled File AudioOutputFormatId probe_outcome
  | Resumed nat payload
  | CancelConversionCalled
  | EngineProgress nat jsnum

fun step :: "event \<Rightarrow> Service \<Rightarrow> Service" where
  "step (ConvertCalled f fid env) s = convert f fid env s"
| "step (Resumed i p) s = resumeCall i p s"
| "step CancelConversionCalled s = cancelConversion s"
| "step (EngineProgress i v) s = engineProgress i v s"

definition run :: "event list \<Rightarrow> Service \<Rightarrow> Service" where
  "run es s = fold step es s"

definition newService :: Service where
  "newService = \<lparr>activeCancel = None, supportChecks = [], probes = [], calls = []\<rparr>"

subsection \<open>Invariants of the service\<close>

definition inTry :: "pc \<Rightarrow> bool" where
  \<comment> \<open>the call is suspended inside the \<^verbatim>\<open>try\<close> block\<close>
  "inTry p = (case p of AwaitGetFormat sp bytes \<Rightarrow> True | AwaitInit sp \<Rightarrow> True
              | AwaitRace sp \<Rightarrow> True | _ \<Rightarrow> False)"

definition atRace :: "pc \<Rightarrow> bool" where
  \<comment> \<open>the call is suspended at \<^verbatim>\<open>await Promise.race(...)\<close>\<close>
  "atRace p = (case p of AwaitRace sp \<Rightarrow> True | _ \<Rightarrow> False)"

definition pcSpec :: "pc \<Rightarrow> AudioFormatSpec option" where
  \<comment> \<open>the local \<^verbatim>\<open>spec\<close> of a suspended call\<close>
  "pcSpec p = (case p of AwaitSupport sp b \<Rightarrow> Some sp | AwaitArrayBuffer sp \<Rightarrow> Some sp
               | AwaitGetFormat sp bytes \<Rightarrow> Some sp | AwaitInit sp \<Rightarrow> Some sp
               | AwaitRace sp \<Rightarrow> Some sp | Returned \<Rightarrow> None)"

definition resultOk :: "AudioOutputFormatId \<Rightarrow> (thrown + ConversionResult) option \<Rightarrow> bool" where
  "resultOk fid outcome =
     (\<forall>r. outcome = Some (Inr r) \<longrightarrow>
        remoteUrl r = None \<and> blob_type (blob r) = mimeType r
        \<and> map_option AudioFormatSpec.mimeType (AUDIO_FORMAT_SPECS fid) = Some (mimeType r))"

definition callInv :: "Call \<Rightarrow> bool" where
  "callInv c =
     ((cancelRequested c \<longrightarrow> inTry (pc c) \<or> pc c = Returned)
      \<and> (pc c \<noteq> Returned \<longrightarrow> settled c = None)
      \<and> (atRace (pc c) \<longrightarrow> onProgress c)
      \<and> (\<forall>sp. pcSpec (pc c) = Some sp \<longrightarrow> AUDIO_FORMAT_SPECS (formatId c) = Some sp)
      \<and> resultOk (formatId c) (settled c))"

definition serviceInv :: "Service \<Rightarrow> bool" where
  "serviceInv s =
     (list_all callInv (calls s)
      \<and> (\<forall>i. activeCancel s = Some i \<longrightarrow> i < length (calls s) \<and> inTry (pc (calls s ! i))))"

subsection \<open>Example inputs\<close>

definition clip :: File where
  "clip = \<lparr>name = ''My Clip (Final)!!.mov''\<rparr>"

definition validPlan :: Conversion where
  "validPlan = \<lparr>isValid = True, discardedTracks = []\<rparr>"

definition untilDetecting :: "nat \<Rightarrow> event list" where
  \<comment> \<open>the environment lets call \<open>i\<close> run up to \<^verbatim>\<open>await input.getFormat()\<close>\<close>
  "untilDetecting i = [Resumed i SupportSettled, Resumed i (ArrayBufferFulfilled [0x1A, 0x45])]"

definition untilExecuting :: "nat \<Rightarrow> event list" where
  \<comment> \<open>then on to \<^verbatim>\<open>await Promise.race(...)\<close>, with a valid plan\<close>
  "untilExecuting i =
     [Resumed i (GetFormatFulfilled (Some ''Matroska'') None), Resumed i (InitFulfilled validPlan)]"

section \<open>Lemmas on the sanitizer\<close>

lemma dropWhile_weaker:
  "(\<And>x. P x \<Longrightarrow> Q x) \<Longrightarrow> dropWhile Q (dropWhile P xs) = dropWhile Q xs"
  by (induction xs) auto

lemma dropWhile_list_all: "list_all P xs \<Longrightarrow> dropWhile P xs = []"
  by (induction xs) auto

lemma notWord_sep: "notWordChar c \<Longrightarrow> isSeparator c"
  by (auto simp: notWordChar_def isSeparator_def isWordChar_def split: if_splits)

lemma sep_cases: "isSeparator c = (notWordChar c \<or> isUnderscore c)"
  by (auto simp: notWordChar_def isSeparator_def isWordChar_def isUnderscore_def isAlnum_def)

lemma word_not_sep: "\<not> isSeparator c \<Longrightarrow> isWordChar c \<and> \<not> isUnderscore c"
  by (auto simp: sep_cases notWordChar_def split: if_splits)

lemma dropWhile_us_replace:
  "dropWhile isUnderscore (replaceNonWordRuns cs) = replaceNonWordRuns (dropWhile isSeparator cs)"
proof (induction cs rule: replaceNonWordRuns.induct)
  case 1
  show ?case by simp
next
  case (2 c cs)
  show ?case
  proof (cases "isWordChar c")
    case True
    then show ?thesis using 2 by (auto simp: sep_cases notWordChar_def isUnderscore_def)
  next
    case False
    then have s: "isSeparator c" "notWordChar c" by (auto simp: sep_cases notWordChar_def)
    have "dropWhile isSeparator (dropWhile notWordChar cs) = dropWhile isSeparator cs"
      by (rule dropWhile_weaker) (rule notWord_sep)
    then show ?thesis using False s 2 by (simp add: isUnderscore_def)
  qed
qed

lemma collapse_us_Cons:
  "collapseUnderscores (CHR ''_'' # r) = CHR ''_'' # collapseUnderscores (dropWhile isUnderscore r)"
  by (cases r) (auto simp: isUnderscore_def)

lemma collapse_replace_squeeze:
  "collapseUnderscores (replaceNonWordRuns s) = spec_squeezeSeparators s"
proof (induction s rule: spec_squeezeSeparators.induct)
  case 1
  show ?case by simp
next
  case (2 c cs)
  show ?case
  proof (cases "isSeparator c")
    case False
    then have "isWordChar c" "\<not> isUnderscore c" using word_not_sep by auto
    then show ?thesis using False 2 by simp
  next
    case True
    have d: "dropWhile isSeparator (dropWhile notWordChar cs) = dropWhile isSeparator cs"
      by (rule dropWhile_weaker) (rule notWord_sep)
    show ?thesis
    proof (cases "isWordChar c")
      case w: True
      then have "c = CHR ''_''"
        using True by (auto simp: sep_cases notWordChar_def isUnderscore_def)
      then show ?thesis using True w 2
        by (simp add: collapse_us_Cons dropWhile_us_replace del: collapseUnderscores.simps)
    next
      case w: False
      then show ?thesis using True 2
        by (simp add: collapse_us_Cons dropWhile_us_replace d del: collapseUnderscores.simps)
    qed
  qed
qed

lemma stripExtension_set: "set (stripExtension s) \<subseteq> set s"
  by (induction s) auto

lemma squeeze_all_sep:
  "list_all isSeparator s \<Longrightarrow> spec_squeezeSeparators s = [] \<or> spec_squeezeSeparators s = ''_''"
  by (cases s) (simp_all add: dropWhile_list_all)

lemma sanitize_all_sep:
  assumes "list_all isSeparator s"
  shows "sanitizeBaseName s = []"
proof -
  have "list_all isSeparator (stripExtension s)"
    using assms stripExtension_set[of s] by (auto simp: list_all_iff)
  then have "spec_squeezeSeparators (stripExtension s) = []
      \<or> spec_squeezeSeparators (stripExtension s) = ''_''"
    by (rule squeeze_all_sep)
  then show ?thesis
    by (auto simp: sanitizeBaseName_def collapse_replace_squeeze trimUnderscores_def
        toLowerCase_def isUnderscore_def)
qed

lemmas name_eval = isAlnum_def isWordChar_def isUnderscore_def notWordChar_def extChar_def
  isSeparator_def trimUnderscores_def toLowerCase_def sanitizeBaseName_def buildOutputName_def
  spec_buildOutputName_def

section \<open>Output file names: the claim\<close>

text \<open>
  C4, as the code has it. The output name is the source name with its extension
  stripped, every run of characters that are neither alphanumeric nor a dash (so a run
  may hold underscores, and two or more underscores in a row are a run) replaced by a
  single underscore, the underscores at both ends trimmed, lower-cased, truncated to 64
  characters, replaced by "audio" if empty, with the target extension appended.
  "My Clip (Final)!!.mov" with ".mp3" gives "my_clip_final.mp3", and a source name with
  no alphanumeric character and no dash gives "audio" and the extension.
\<close>

theorem buildOutputName_squeezes_separators:
  "buildOutputName nm ext =
     (let base = take 64 (toLowerCase (trimUnderscores
                   (spec_squeezeSeparators (stripExtension nm))))
      in (if base = [] then ''audio'' else base) @ ext)
   \<and> buildOutputName ''My Clip (Final)!!.mov'' ''.mp3'' = ''my_clip_final.mp3''
   \<and> (list_all isSeparator nm \<longrightarrow> buildOutputName nm ext = ''audio'' @ ext)"
proof (intro conjI impI)
  show "buildOutputName nm ext =
     (let base = take 64 (toLowerCase (trimUnderscores
                   (spec_squeezeSeparators (stripExtension nm))))
      in (if base = [] then ''audio'' else base) @ ext)"
    by (simp add: buildOutputName_def sanitizeBaseName_def collapse_replace_squeeze Let_def)
  show "buildOutputName ''My Clip (Final)!!.mov'' ''.mp3'' = ''my_clip_final.mp3''"
    by (simp add: name_eval)
  show "buildOutputName nm ext = ''audio'' @ ext" if "list_all isSeparator nm"
    using sanitize_all_sep[OF that] by (simp add: buildOutputName_def)
qed

theorem buildOutputName_squeezes_separators_witness:
  "list_all isSeparator ''(!!) ~ __'' \<and> buildOutputName ''(!!) ~ __'' ''.mp3'' = ''audio.mp3''
   \<and> buildOutputName ''a_ _b.x.mov'' ''.wav'' = ''a_b_x.wav''"
proof -
  have sep: "list_all isSeparator ''(!!) ~ __''"
    by (simp add: isSeparator_def isAlnum_def)
  have "buildOutputName ''(!!) ~ __'' ''.mp3'' = ''audio'' @ ''.mp3''"
    using buildOutputName_squeezes_separators[of "''(!!) ~ __''" "''.mp3''"] sep by blast
  moreover have "buildOutputName ''a_ _b.x.mov'' ''.wav'' = ''a_b_x.wav''"
    using buildOutputName_squeezes_separators[of "''a_ _b.x.mov''" "''.wav''"]
    by (simp add: name_eval)
  ultimately show ?thesis using sep by simp
qed

text \<open>
  Where the words of C4 fail: they replace runs outside alphanumeric, dash and
  underscore only, which keeps two underscores in a row, and the code collapses them;
  and a name of dashes is all symbols, yet it is kept.
\<close>

theorem buildOutputName_counterexample:
  "buildOutputName ''a__b.mov'' ''.mp3'' = ''a_b.mp3''
   \<and> spec_buildOutputName ''a__b.mov'' ''.mp3'' = ''a__b.mp3''
   \<and> buildOutputName ''---'' ''.mp3'' = ''---.mp3''"
  by (simp add: name_eval)

section \<open>Failure descriptions: the claim\<close>

lemma humanizeReason_table: "plainReason r \<Longrightarrow> humanizeReason r = browser_reasonPhrase r"
proof (cases r)
  case (unlisted_reason code rendering)
  assume "plainReason r"
  then show ?thesis using unlisted_reason
    by (simp add: humanizeReason_def mappingAt_def inheritedMember_def plainReason_def)
qed (simp_all add: humanizeReason_def mappingAt_def mapping_def)

lemma trackClause_spec:
  "plainReason (reason d) \<Longrightarrow> trackClause d = spec_clause browser_reasonPhrase d"
  by (simp add: trackClause_def spec_clause_def humanizeReason_table)

lemma join_clauses:
  "list_all (\<lambda>d. plainReason (reason d)) ds
   \<Longrightarrow> join ''; '' (map trackClause ds) = spec_clauses browser_reasonPhrase ds"
proof (induction ds rule: induct_list012)
  case 1
  show ?case by simp
next
  case (2 d)
  then show ?case by (simp add: trackClause_spec)
next
  case (3 d e ds)
  then show ?case by (simp add: trackClause_spec)
qed

lemma humanizeReason_inherited:
  "humanizeReason (unlisted_reason ''constructor'' rendering) = rendering
   \<and> humanizeReason (unlisted_reason ''unknown_source_codec'' rendering) = ''unknown source codec''"
  by (simp add: humanizeReason_def mappingAt_def inheritedMember_def mapping_def
      objectPrototypeKeys_def)

text \<open>
  C8, as the code has it. For a non-empty list of discarded tracks whose reason codes
  are the six of the engine, or are in the table neither as an entry nor as a member of
  \<^verbatim>\<open>Object.prototype\<close>, the description is "Unable to convert this file: ", then one
  clause per track of the form "<kind> track discarded (<reason-phrase>)", the clauses
  joined with "; ", then a full stop. The phrases are those of the specification,
  except that an undecodable source codec reads "source codec not decodable in this
  browser"; a code that names no entry of the table and no member of
  \<^verbatim>\<open>Object.prototype\<close> reads "unsupported track".
\<close>

theorem describeInvalidConversion_clauses:
  "(discarded \<noteq> [] \<and> list_all (\<lambda>d. plainReason (reason d)) discarded \<longrightarrow>
      describeInvalidConversion discarded =
        ''Unable to convert this file: '' @ spec_clauses browser_reasonPhrase discarded @ ''.'')
   \<and> (plainReason r \<longrightarrow> humanizeReason r = browser_reasonPhrase r)
   \<and> (map_of mapping code = None \<and> code \<notin> set objectPrototypeKeys \<longrightarrow>
        humanizeReason (unlisted_reason code rendering) = ''unsupported track'')"
proof (intro conjI impI)
  assume "discarded \<noteq> [] \<and> list_all (\<lambda>d. plainReason (reason d)) discarded"
  then show "describeInvalidConversion discarded =
        ''Unable to convert this file: '' @ spec_clauses browser_reasonPhrase discarded @ ''.''"
    by (simp add: describeInvalidConversion_def join_clauses)
next
  assume "plainReason r"
  then show "humanizeReason r = browser_reasonPhrase r" by (rule humanizeReason_table)
next
  assume "map_of mapping code = None \<and> code \<notin> set objectPrototypeKeys"
  then have "plainReason (unlisted_reason code rendering)" by (simp add: plainReason_def)
  then show "humanizeReason (unlisted_reason code rendering) = ''unsupported track''"
    by (simp add: humanizeReason_table)
qed

theorem describeInvalidConversion_clauses_witness:
  "describeInvalidConversion
        [\<lparr>track_type = ''video'', reason = discarded_by_user\<rparr>,
         \<lparr>track_type = ''audio'', reason = unknown_source_codec\<rparr>,
         \<lparr>track_type = ''subtitle'', reason = unlisted_reason ''no_text_encoder'' []\<rparr>] =
      ''Unable to convert this file: video track discarded (discarded by configuration); audio track discarded (unknown source codec); subtitle track discarded (unsupported track).''
   \<and> humanizeReason no_encodable_target_codec = ''no compatible encoder available''
   \<and> humanizeReason (unlisted_reason ''no_text_encoder'' []) = ''unsupported track''"
proof -
  let ?ds = "[\<lparr>track_type = ''video'', reason = discarded_by_user\<rparr>,
         \<lparr>track_type = ''audio'', reason = unknown_source_codec\<rparr>,
         \<lparr>track_type = ''subtitle'', reason = unlisted_reason ''no_text_encoder'' []\<rparr>]"
  have key: "map_of mapping ''no_text_encoder'' = None
      \<and> ''no_text_encoder'' \<notin> set objectPrototypeKeys"
    by (simp add: objectPrototypeKeys_def mapping_def)
  have pre: "?ds \<noteq> [] \<and> list_all (\<lambda>d. plainReason (reason d)) ?ds"
    using key by (simp add: plainReason_def)
  have one: "describeInvalidConversion ?ds =
      ''Unable to convert this file: '' @ spec_clauses browser_reasonPhrase ?ds @ ''.''"
    using describeInvalidConversion_clauses[of ?ds] pre by blast
  have two: "humanizeReason no_encodable_target_codec = browser_reasonPhrase no_encodable_target_codec"
    using describeInvalidConversion_clauses[of _ no_encodable_target_codec]
    by (simp add: plainReason_def)
  have three: "humanizeReason (unlisted_reason ''no_text_encoder'' []) = ''unsupported track''"
    using describeInvalidConversion_clauses[of _ _ "''no_text_encoder''" "[]"] key by blast
  show ?thesis using one two three by (simp add: spec_clause_def)
qed

text \<open>
  Where the words of C8 fail: the phrase of an undecodable source codec ends in
  "browser", not in "runtime".
\<close>

theorem humanizeReason_counterexample:
  "humanizeReason undecodable_source_codec = ''source codec not decodable in this browser''
   \<and> spec_reasonPhrase undecodable_source_codec = ''source codec not decodable in this runtime''
   \<and> describeInvalidConversion [\<lparr>track_type = ''audio'', reason = undecodable_source_codec\<rparr>] =
       ''Unable to convert this file: audio track discarded (source codec not decodable in this browser).''"
  by (simp add: humanizeReason_def mappingAt_def mapping_def describeInvalidConversion_def
      trackClause_def)


section \<open>Invariants of the service: lemmas\<close>

lemmas effect_defs = onLog_def relay_def invoke_def finallyBlock_def throw_def

lemmas stage_defs = afterSupport_def afterArrayBuffer_def afterGetFormat_def getFormatFailed_def
  afterInit_def afterExecute_def

lemma cancel_requested [simp]: "cancelRequested (cancel c)"
  by (simp add: cancel_def effect_defs Let_def)

lemma cancel_noop: "cancelRequested c \<Longrightarrow> cancel c = c"
  by (simp add: cancel_def)


lemma cancel_keeps [simp]:
  "pc (cancel c) = pc c" "settled (cancel c) = settled c" "formatId (cancel c) = formatId c"
  "onProgress (cancel c) = onProgress c" "progress (cancel c) = progress c"
  by (simp_all add: cancel_def effect_defs Let_def)

lemma progressHandler_keeps [simp]:
  "pc (progressHandler v c) = pc c" "settled (progressHandler v c) = settled c"
  "formatId (progressHandler v c) = formatId c" "onProgress (progressHandler v c) = onProgress c"
  "cancelRequested (progressHandler v c) = cancelRequested c"
  by (simp_all add: progressHandler_def effect_defs Let_def)

lemma callInv_cancel: "callInv c \<Longrightarrow> inTry (pc c) \<Longrightarrow> callInv (cancel c)"
  by (simp add: callInv_def resultOk_def)


lemma callInv_progressHandler: "callInv c \<Longrightarrow> callInv (progressHandler v c)"
  by (simp add: callInv_def)

lemma callInv_afterSupport:
  "callInv c \<Longrightarrow> pc c = AwaitSupport sp b \<Longrightarrow> callInv (fst (afterSupport sp b c))"
  by (auto simp: callInv_def afterSupport_def effect_defs inTry_def atRace_def pcSpec_def resultOk_def
      split: if_splits)

lemma callInv_afterArrayBuffer:
  "callInv c \<Longrightarrow> pc c = AwaitArrayBuffer sp \<Longrightarrow> callInv (fst (afterArrayBuffer sp bytes c))"
  by (auto simp: callInv_def afterArrayBuffer_def effect_defs inTry_def atRace_def pcSpec_def resultOk_def
      Let_def split: if_splits)

lemma callInv_throw:
  "callInv c \<Longrightarrow> \<not> inTry (pc c) \<Longrightarrow> \<not> cancelRequested c \<Longrightarrow> callInv (fst (throw e c))"
  by (auto simp: callInv_def effect_defs inTry_def atRace_def pcSpec_def resultOk_def split: if_splits)

lemma callInv_finallyBlock_Inl: "callInv c \<Longrightarrow> callInv (fst (finallyBlock (Inl e) c))"
  by (auto simp: callInv_def effect_defs inTry_def atRace_def pcSpec_def resultOk_def split: if_splits)

lemma callInv_afterGetFormat:
  "callInv c \<Longrightarrow> pc c = AwaitGetFormat sp bytes \<Longrightarrow> callInv (fst (afterGetFormat sp n cn c))"
  by (auto simp: callInv_def afterGetFormat_def effect_defs inTry_def atRace_def pcSpec_def resultOk_def
      Let_def split: if_splits)

lemma callInv_getFormatFailed:
  "callInv c \<Longrightarrow> callInv (fst (getFormatFailed bytes e c))"
  by (auto simp: callInv_def getFormatFailed_def effect_defs inTry_def atRace_def pcSpec_def resultOk_def
      Let_def split: if_splits)

lemma callInv_afterInit:
  "callInv c \<Longrightarrow> pc c = AwaitInit sp \<Longrightarrow> callInv (fst (afterInit sp conv c))"
  by (auto simp: callInv_def afterInit_def effect_defs inTry_def atRace_def pcSpec_def resultOk_def
      Let_def cancel_noop split: if_splits)

lemma callInv_afterExecute:
  "callInv c \<Longrightarrow> pc c = AwaitRace sp \<Longrightarrow> callInv (fst (afterExecute sp buffer c))"
  by (auto simp: callInv_def afterExecute_def effect_defs inTry_def atRace_def pcSpec_def resultOk_def
      Let_def split: if_splits option.splits)

lemma resume_cases:
  obtains
    (support) sp b where "pc c = AwaitSupport sp b" "p = SupportSettled"
      "resume p c = afterSupport sp b c"
  | (buffer) sp bytes where "pc c = AwaitArrayBuffer sp" "p = ArrayBufferFulfilled bytes"
      "resume p c = afterArrayBuffer sp bytes c"
  | (nobuffer) sp e where "pc c = AwaitArrayBuffer sp" "p = ArrayBufferRejected e"
      "resume p c = throw e c"
  | (format) sp bytes n cn where "pc c = AwaitGetFormat sp bytes" "p = GetFormatFulfilled n cn"
      "resume p c = afterGetFormat sp n cn c"
  | (noformat) sp bytes e where "pc c = AwaitGetFormat sp bytes" "p = GetFormatRejected e"
      "resume p c = getFormatFailed bytes e c"
  | (init) sp conv where "pc c = AwaitInit sp" "p = InitFulfilled conv"
      "resume p c = afterInit sp conv c"
  | (noinit) sp e where "pc c = AwaitInit sp" "p = InitRejected e"
      "resume p c = finallyBlock (Inl e) c"
  | (executed) sp buffer where "pc c = AwaitRace sp" "p = ExecuteFulfilled buffer"
      "resume p c = afterExecute sp buffer c"
  | (failed) sp e where "pc c = AwaitRace sp" "p = ExecuteRejected e"
      "resume p c = finallyBlock (Inl e) c"
  | (cancelled) sp where "pc c = AwaitRace sp" "p = CancelPromiseRejected" "cancelPromise c"
      "resume p c = finallyBlock (Inl cancelled) c"
  | (disabled) "resume p c = (c, Keep)"
  by (cases "pc c"; cases p; cases "cancelPromise c") (auto simp: resume_def)

lemma callInv_resume: "callInv c \<Longrightarrow> callInv (fst (resume p c))"
proof (cases p c rule: resume_cases)
  case (nobuffer sp e)
  assume "callInv c"
  then show ?thesis using nobuffer
    by (auto simp: callInv_def effect_defs inTry_def atRace_def pcSpec_def resultOk_def split: if_splits)
qed (simp_all add: callInv_afterSupport callInv_afterArrayBuffer callInv_afterGetFormat
      callInv_getFormatFailed callInv_afterInit callInv_afterExecute callInv_finallyBlock_Inl)

lemma resume_marker:
  assumes "resume p c = (c', m)"
  shows "(m = SetActive \<longrightarrow> inTry (pc c'))
       \<and> (m = Keep \<and> inTry (pc c) \<longrightarrow> inTry (pc c'))"
  using assms
  by (cases p c rule: resume_cases)
     (auto simp: stage_defs effect_defs inTry_def Let_def split: if_splits option.splits)

lemma list_all_update: "list_all P xs \<Longrightarrow> P x \<Longrightarrow> list_all P (xs[i := x])"
  by (induction xs arbitrary: i) (auto split: nat.splits)

lemma list_all_nth: "list_all P xs \<Longrightarrow> i < length xs \<Longrightarrow> P (xs ! i)"
  by (simp add: list_all_length)

lemma isFormatSupported_calls [simp]:
  "calls (snd (isFormatSupported env fid s)) = calls s"
  "activeCancel (snd (isFormatSupported env fid s)) = activeCancel s"
  by (auto simp: isFormatSupported_def checkCodecSupport_def
      split: option.splits if_splits probe_outcome.splits prod.splits)

lemma convert_calls:
  "\<exists>c. calls (convert f fid env s) = calls s @ [c] \<and> callInv c
       \<and> activeCancel (convert f fid env s) = activeCancel s"
proof (cases "activeCancel s \<noteq> None")
  case True
  then show ?thesis
    by (auto simp: convert_def newCall_def throw_def callInv_def inTry_def atRace_def pcSpec_def resultOk_def)
next
  case False
  obtain sp where sp: "AUDIO_FORMAT_SPECS fid = Some sp" by (cases fid) auto
  obtain b s1 where r: "isFormatSupported env fid s = (b, s1)" by fastforce
  have "calls s1 = calls s" "activeCancel s1 = activeCancel s"
    using isFormatSupported_calls[of env fid s] r by auto
  then show ?thesis using False sp r
    by (simp add: convert_def newCall_def callInv_def inTry_def atRace_def pcSpec_def resultOk_def)
qed

lemma serviceInv_step: "serviceInv s \<Longrightarrow> serviceInv (step e s)"
proof (cases e)
  case (ConvertCalled f fid env)
  assume inv: "serviceInv s"
  obtain c where c: "calls (convert f fid env s) = calls s @ [c]" "callInv c"
    "activeCancel (convert f fid env s) = activeCancel s"
    using convert_calls by blast
  show ?thesis using inv c
    by (auto simp: ConvertCalled serviceInv_def nth_append split: option.splits)
next
  case (Resumed i p)
  assume inv: "serviceInv s"
  show ?thesis
  proof (cases "i < length (calls s)")
    case False
    then show ?thesis using inv by (simp add: Resumed resumeCall_def)
  next
    case True
    obtain c' m where r: "resume p (calls s ! i) = (c', m)" by fastforce
    have ci: "callInv (calls s ! i)"
      using inv True by (simp add: serviceInv_def list_all_nth)
    have c': "callInv c'" using callInv_resume[OF ci, of p] r by simp
    have all: "list_all callInv ((calls s)[i := c'])"
      using inv c' by (simp add: serviceInv_def list_all_update)
    have mk: "(m = SetActive \<longrightarrow> inTry (pc c'))
       \<and> (m = Keep \<and> inTry (pc (calls s ! i)) \<longrightarrow> inTry (pc c'))"
      using resume_marker[OF r] .
    have "\<forall>j. setMarker i m (activeCancel s) = Some j
            \<longrightarrow> j < length (calls s) \<and> inTry (pc ((calls s)[i := c'] ! j))"
    proof (cases m)
      case Keep
      then show ?thesis using inv mk True
        by (auto simp: setMarker_def serviceInv_def nth_list_update split: option.splits)
    next
      case SetActive
      then show ?thesis using mk True by (simp add: setMarker_def)
    next
      case ClearActive
      then show ?thesis by (simp add: setMarker_def)
    qed
    then show ?thesis using all True r
      by (simp add: Resumed resumeCall_def serviceInv_def)
  qed
next
  case CancelConversionCalled
  assume inv: "serviceInv s"
  show ?thesis
  proof (cases "activeCancel s")
    case None
    then show ?thesis using inv by (simp add: CancelConversionCalled cancelConversion_def)
  next
    case (Some i)
    then have i: "i < length (calls s)" "inTry (pc (calls s ! i))"
      using inv by (auto simp: serviceInv_def)
    then have "callInv (cancel (calls s ! i))"
      using inv by (simp add: serviceInv_def list_all_nth callInv_cancel)
    then show ?thesis using inv Some i
      by (simp add: CancelConversionCalled cancelConversion_def serviceInv_def list_all_update)
  qed
next
  case (EngineProgress i v)
  assume inv: "serviceInv s"
  show ?thesis
  proof (cases "i < length (calls s) \<and> onProgress (calls s ! i)")
    case False
    then show ?thesis using inv by (auto simp: EngineProgress engineProgress_def)
  next
    case True
    then have "callInv (progressHandler v (calls s ! i))"
      using inv by (simp add: serviceInv_def list_all_nth callInv_progressHandler)
    then show ?thesis using inv True
      by (auto simp: EngineProgress engineProgress_def serviceInv_def list_all_update
          nth_list_update split: option.splits)
  qed
qed

lemma serviceInv_run: "serviceInv s \<Longrightarrow> serviceInv (run es s)"
  unfolding run_def by (induction es arbitrary: s) (simp_all add: serviceInv_step)

lemma serviceInv_newService: "serviceInv newService"
  by (simp add: serviceInv_def newService_def)

lemma run_append: "run (es @ es') s = run es' (run es s)"
  by (simp add: run_def)

lemmas service_eval = run_def newService_def convert_def resumeCall_def cancelConversion_def
  engineProgress_def resume_def stage_defs effect_defs cancel_def progressHandler_def
  isFormatSupported_def checkCodecSupport_def mapSet_def newCall_def setMarker_def
  cancelled_def clip_def validPlan_def untilDetecting_def untilExecuting_def atRace_def
  unsupportedText_def

lemma reachable_callInv:
  "i < length (calls (run es newService)) \<Longrightarrow> callInv (calls (run es newService) ! i)"
  using serviceInv_run[OF serviceInv_newService, of es]
  by (simp add: serviceInv_def list_all_nth)

lemma convert_nth:
  "i < length (calls s) \<Longrightarrow> calls (convert f fid env s) ! i = calls s ! i
     \<and> i < length (calls (convert f fid env s))"
  using convert_calls[of f fid env s] by (auto simp: nth_append)

section \<open>The capability probe: the claim\<close>

lemma map_of_mapSet_same: "map_of m k = None \<Longrightarrow> map_of (mapSet k v m) k = Some v"
  by (simp add: mapSet_def map_add_def)

lemma map_of_mapSet_other: "map_of m k = None \<Longrightarrow> j \<noteq> k \<Longrightarrow> map_of (mapSet k v m) j = map_of m j"
  by (simp add: mapSet_def map_add_def split: option.splits)

lemma isFormatSupported_always:
  "AUDIO_FORMAT_SPECS fid = Some sp \<Longrightarrow> alwaysAvailable sp = Some True
   \<Longrightarrow> isFormatSupported env fid s = (True, s)"
  by (simp add: isFormatSupported_def)

lemma isFormatSupported_cached:
  "AUDIO_FORMAT_SPECS fid = Some sp \<Longrightarrow> alwaysAvailable sp \<noteq> Some True
   \<Longrightarrow> map_of (supportChecks s) fid = Some b \<Longrightarrow> isFormatSupported env fid s = (b, s)"
  by (simp add: isFormatSupported_def)

lemma isFormatSupported_caches:
  assumes "AUDIO_FORMAT_SPECS fid = Some sp" "alwaysAvailable sp \<noteq> Some True"
    and "isFormatSupported env fid s = (b, s1)"
  shows "map_of (supportChecks s1) fid = Some b"
proof (cases "map_of (supportChecks s) fid")
  case (Some p)
  then show ?thesis using assms by (simp add: isFormatSupported_def)
next
  case None
  then show ?thesis using assms
    by (auto simp: isFormatSupported_def checkCodecSupport_def map_of_mapSet_same
        split: if_splits probe_outcome.splits prod.splits)
qed

lemma isFormatSupported_keeps:
  assumes "map_of (supportChecks s) fid = Some b"
  shows "map_of (supportChecks (snd (isFormatSupported env fid' s))) fid = Some b"
proof (cases "fid' = fid")
  case True
  then show ?thesis using assms
    by (simp add: isFormatSupported_def split: option.splits)
next
  case False
  then show ?thesis using assms
    by (auto simp: isFormatSupported_def checkCodecSupport_def map_of_mapSet_other
        split: option.splits if_splits probe_outcome.splits prod.splits)
qed

lemma step_keeps_cache:
  assumes "map_of (supportChecks s) fid = Some b"
  shows "map_of (supportChecks (step e s)) fid = Some b"
proof (cases e)
  case (ConvertCalled f fid' env)
  show ?thesis
    using assms isFormatSupported_keeps[OF assms, of env fid']
    by (auto simp: ConvertCalled convert_def split: option.splits prod.splits)
next
  case (Resumed i p)
  then show ?thesis using assms by (simp add: resumeCall_def split: prod.splits)
next
  case CancelConversionCalled
  then show ?thesis using assms by (simp add: cancelConversion_def split: option.splits)
next
  case (EngineProgress i v)
  then show ?thesis using assms by (simp add: engineProgress_def)
qed

lemma run_keeps_cache:
  "map_of (supportChecks s) fid = Some b \<Longrightarrow> map_of (supportChecks (run es s)) fid = Some b"
  unfolding run_def by (induction es arbitrary: s) (simp_all add: step_keeps_cache)

text \<open>
  C7. A format marked always available is reported supported and the service is left as
  it was: no probe is issued and nothing is cached. For any other format of the catalog
  the answer of a call is cached under the format id; the entry stays whatever the
  service does afterwards, and a later call returns the cached answer and leaves the
  service as it was, so it issues no probe, whatever the probe would answer then. The
  first call for such a format issues one probe of the format's codec and answers, and
  caches, what the probe resolves to, and \<open>False\<close> when the probe throws;
  \<^verbatim>\<open>checkCodecSupport\<close> itself answers \<open>True\<close> for PCM without a probe, and for any
  other codec what the probe resolves to, or \<open>False\<close> when it throws.
\<close>

theorem isFormatSupported_memoizes:
  "(AUDIO_FORMAT_SPECS fid = Some sp \<and> alwaysAvailable sp = Some True
      \<longrightarrow> isFormatSupported env fid s = (True, s))
   \<and> (AUDIO_FORMAT_SPECS fid = Some sp \<and> alwaysAvailable sp \<noteq> Some True
        \<and> isFormatSupported env fid s = (b, s1)
      \<longrightarrow> isFormatSupported env2 fid (run es s1) = (b, run es s1))
   \<and> (AUDIO_FORMAT_SPECS fid = Some sp \<and> alwaysAvailable sp \<noteq> Some True
        \<and> map_of (supportChecks s) fid = None
      \<longrightarrow> isFormatSupported ProbeThrows fid s =
            (False, s\<lparr>probes := probes s @ [codec sp],
                      supportChecks := supportChecks s @ [(fid, False)]\<rparr>)
          \<and> isFormatSupported (ProbeResolves answer) fid s =
            (answer, s\<lparr>probes := probes s @ [codec sp],
                       supportChecks := supportChecks s @ [(fid, answer)]\<rparr>))
   \<and> checkCodecSupport env codec_pcm_s16 s = (True, s)
   \<and> (cd \<noteq> codec_pcm_s16
      \<longrightarrow> checkCodecSupport (ProbeResolves answer) cd s = (answer, s\<lparr>probes := probes s @ [cd]\<rparr>)
          \<and> checkCodecSupport ProbeThrows cd s = (False, s\<lparr>probes := probes s @ [cd]\<rparr>))"
proof (intro conjI impI)
  assume "AUDIO_FORMAT_SPECS fid = Some sp \<and> alwaysAvailable sp = Some True"
  then show "isFormatSupported env fid s = (True, s)"
    by (simp add: isFormatSupported_always)
next
  assume a: "AUDIO_FORMAT_SPECS fid = Some sp \<and> alwaysAvailable sp \<noteq> Some True
        \<and> isFormatSupported env fid s = (b, s1)"
  then have "map_of (supportChecks s1) fid = Some b"
    using isFormatSupported_caches by blast
  then have "map_of (supportChecks (run es s1)) fid = Some b"
    by (rule run_keeps_cache)
  then show "isFormatSupported env2 fid (run es s1) = (b, run es s1)"
    using a isFormatSupported_cached by blast
next
  assume a: "AUDIO_FORMAT_SPECS fid = Some sp \<and> alwaysAvailable sp \<noteq> Some True
        \<and> map_of (supportChecks s) fid = None"
  then have c: "codec sp \<noteq> codec_pcm_s16"
    by (cases fid) auto
  show "isFormatSupported ProbeThrows fid s =
            (False, s\<lparr>probes := probes s @ [codec sp],
                      supportChecks := supportChecks s @ [(fid, False)]\<rparr>)"
    using a c by (simp add: isFormatSupported_def checkCodecSupport_def mapSet_def)
  show "isFormatSupported (ProbeResolves answer) fid s =
            (answer, s\<lparr>probes := probes s @ [codec sp],
                       supportChecks := supportChecks s @ [(fid, answer)]\<rparr>)"
    using a c by (simp add: isFormatSupported_def checkCodecSupport_def mapSet_def)
next
  show "checkCodecSupport env codec_pcm_s16 s = (True, s)"
    by (simp add: checkCodecSupport_def)
next
  assume "cd \<noteq> codec_pcm_s16"
  then show "checkCodecSupport (ProbeResolves answer) cd s =
      (answer, s\<lparr>probes := probes s @ [cd]\<rparr>)"
    and "checkCodecSupport ProbeThrows cd s = (False, s\<lparr>probes := probes s @ [cd]\<rparr>)"
    by (simp_all add: checkCodecSupport_def)
qed

theorem isFormatSupported_memoizes_witness:
  "isFormatSupported ProbeThrows wav newService = (True, newService)
   \<and> (let s1 = snd (isFormatSupported (ProbeResolves False) ogg newService);
          s2 = run [ConvertCalled clip aac (ProbeResolves True)] s1
      in fst (isFormatSupported (ProbeResolves False) ogg newService) = False
         \<and> probes s2 = [codec_opus, codec_aac]
         \<and> supportChecks s2 = [(ogg, False), (aac, True)]
         \<and> isFormatSupported (ProbeResolves True) ogg s2 = (False, s2))
   \<and> fst (isFormatSupported ProbeThrows flac newService) = False
   \<and> fst (isFormatSupported (ProbeResolves True) flac newService) = True
   \<and> fst (checkCodecSupport (ProbeResolves False) codec_opus newService) = False"
proof -
  obtain wv where wv: "AUDIO_FORMAT_SPECS wav = Some wv" "alwaysAvailable wv = Some True"
    by simp
  have one: "isFormatSupported ProbeThrows wav newService = (True, newService)"
    using isFormatSupported_memoizes[of wav wv ProbeThrows newService] wv by blast
  obtain og where og: "AUDIO_FORMAT_SPECS ogg = Some og" "alwaysAvailable og \<noteq> Some True"
    by simp
  have empty: "map_of (supportChecks newService) ogg = None"
    "map_of (supportChecks newService) flac = None"
    by (simp_all add: newService_def)
  let ?r = "isFormatSupported (ProbeResolves False) ogg newService"
  let ?s2 = "run [ConvertCalled clip aac (ProbeResolves True)] (snd ?r)"
  have first: "?r = (False, newService\<lparr>probes := probes newService @ [codec og],
                       supportChecks := supportChecks newService @ [(ogg, False)]\<rparr>)"
    using isFormatSupported_memoizes[where fid = ogg and sp = og and s = newService
        and answer = False] og empty
    by blast
  then have first': "?r = (False, snd ?r)" by simp
  have two: "isFormatSupported (ProbeResolves True) ogg ?s2 = (False, ?s2)"
    using isFormatSupported_memoizes
      [of ogg og "ProbeResolves False" newService False "snd ?r" "ProbeResolves True"
          "[ConvertCalled clip aac (ProbeResolves True)]"] og first'
    by blast
  have log: "probes ?s2 = [codec_opus, codec_aac]"
    "supportChecks ?s2 = [(ogg, False), (aac, True)]"
    by (simp_all add: service_eval)
  obtain fl where fl: "AUDIO_FORMAT_SPECS flac = Some fl" "alwaysAvailable fl \<noteq> Some True"
    by simp
  have three: "fst (isFormatSupported ProbeThrows flac newService) = False"
    "fst (isFormatSupported (ProbeResolves True) flac newService) = True"
    using isFormatSupported_memoizes[where fid = flac and sp = fl and s = newService
        and answer = True] fl empty
    by simp_all
  have four: "fst (checkCodecSupport (ProbeResolves False) codec_opus newService) = False"
    using isFormatSupported_memoizes[where cd = codec_opus and answer = False and s = newService]
    by simp
  show ?thesis using one first two log three four by (simp add: Let_def)
qed

section \<open>The claims on the conversion lifecycle\<close>

subsection \<open>C1: the entry check\<close>

text \<open>
  C1 says that a call of \<^verbatim>\<open>convert\<close> made while another conversion is active fails
  with "Another conversion is already in progress.", the check being atomic at entry.
  The code tests \<^verbatim>\<open>activeCancel\<close> at entry but sets it only after
  \<^verbatim>\<open>await this.isFormatSupported(formatId)\<close> and \<^verbatim>\<open>await file.arrayBuffer()\<close>. A
  second call made while the first reads its file passes the check: here both calls
  go on to invoke the engine's \<^verbatim>\<open>execute\<close>, neither has settled, and the marker is the
  second call's alone.
\<close>

theorem convert_entry_check_passed_twice:
  "map settled (calls (run [ConvertCalled clip mp3 ProbeThrows, Resumed 0 SupportSettled,
                            ConvertCalled clip wav ProbeThrows] newService)) = [None, None]
   \<and> (let s = run ([ConvertCalled clip mp3 ProbeThrows, Resumed 0 SupportSettled,
                     ConvertCalled clip wav ProbeThrows]
                    @ untilDetecting 0 @ untilDetecting 1 @ untilExecuting 0 @ untilExecuting 1)
                 newService
      in map (\<lambda>c. (last (engineCalls c), settled c)) (calls s) = [(Execute, None), (Execute, None)]
         \<and> activeCancel s = Some 1)"
  by (simp add: service_eval)

subsection \<open>C2: cancellation before execution\<close>

text \<open>
  C2 says that a conversion cancelled before the Executing stage never invokes the
  engine's \<^verbatim>\<open>execute\<close> and ends cancelled. In the code the check before execution calls
  \<^verbatim>\<open>cancel()\<close>, which returns at once because \<^verbatim>\<open>cancelRequested\<close> is already set, and
  \<^verbatim>\<open>conversion.execute()\<close> is invoked all the same. Here \<^verbatim>\<open>cancelConversion\<close> is called
  while the container is being detected: the call ends cancelled, but \<^verbatim>\<open>execute\<close> has
  been invoked, and the engine's own \<^verbatim>\<open>cancel\<close> never.
\<close>

theorem cancel_before_execute_still_executes:
  "(let s = run ([ConvertCalled clip mp3 ProbeThrows] @ untilDetecting 0
                  @ [CancelConversionCalled] @ untilExecuting 0
                  @ [Resumed 0 CancelPromiseRejected]) newService
    in engineCalls (calls s ! 0) =
         [NewInput, NewOutput Mp3OutputFormat, GetFormat,
          Init \<lparr>options_codec = codec_mp3, bitrate = Some 192000, sampleRate = None,
                numberOfChannels = None\<rparr>,
          Execute, Dispose]
       \<and> settled (calls s ! 0) = Some (Inl (DOMException ''Conversion cancelled.'' ''AbortError'')))"
  by (simp add: service_eval)

subsection \<open>C3: the output buffer\<close>

text \<open>
  C3 says that when \<^verbatim>\<open>execute\<close> completes and the output buffer is empty or absent the
  call fails, so that a result always carries bytes. The code's guard is
  \<^verbatim>\<open>if (!buffer)\<close>, with the message "Mediabunny did not return any audio bytes.": it
  holds of an absent buffer, but a buffer of zero bytes is an object and passes it. Here
  \<^verbatim>\<open>execute\<close> completes with a buffer of zero bytes and the call settles with a result
  whose payload is empty, where the same run with an absent buffer fails with that
  message.
\<close>

theorem empty_buffer_returns_result:
  "settled (calls (run ([ConvertCalled clip mp3 ProbeThrows] @ untilDetecting 0 @ untilExecuting 0
                        @ [Resumed 0 (ExecuteFulfilled (Some []))]) newService) ! 0) =
     Some (Inr \<lparr>fileName = ''my_clip_final.mp3'',
                blob = \<lparr>blob_bytes = [], blob_type = ''audio/mpeg''\<rparr>,
                remoteUrl = None, mimeType = ''audio/mpeg''\<rparr>)
   \<and> settled (calls (run ([ConvertCalled clip mp3 ProbeThrows] @ untilDetecting 0 @ untilExecuting 0
                        @ [Resumed 0 (ExecuteFulfilled None)]) newService) ! 0) =
     Some (Inl (Error ''Mediabunny did not return any audio bytes.''))"
  by (simp add: service_eval name_eval)

subsection \<open>C5 and C9: progress\<close>

lemma engineProgress_relays:
  assumes "i < length (calls s)" "onProgress (calls s ! i)" "\<not> cancelRequested (calls s ! i)"
  shows "progress (calls (run (map (EngineProgress i) vs) s) ! i) =
         progress (calls s ! i) @ map (\<lambda>v. Math_min (Math_max v (Finite 0)) (Finite 1)) vs"
  using assms
proof (induction vs arbitrary: s)
  case Nil
  show ?case by (simp add: run_def)
next
  case (Cons v vs)
  let ?s = "engineProgress i v s"
  have s1: "i < length (calls ?s)" "onProgress (calls ?s ! i)" "\<not> cancelRequested (calls ?s ! i)"
    "progress (calls ?s ! i) = progress (calls s ! i) @ [Math_min (Math_max v (Finite 0)) (Finite 1)]"
    using Cons.prems by (simp_all add: engineProgress_def progressHandler_def relay_def)
  have "run (map (EngineProgress i) (v # vs)) s = run (map (EngineProgress i) vs) ?s"
    by (simp add: run_def)
  then show ?case using Cons.IH[OF s1(1-3)] s1(4) by simp
qed

text \<open>
  C5, as the code has it. While a call is suspended in the race and cancellation has
  not been requested, every value the engine delivers is relayed as
  \<^verbatim>\<open>Math.min(Math.max(v, 0), 1)\<close>, in the order received and none left out, a later
  smaller value included; the engine's -0.2, 1.4, 0.5 are relayed as 0, 1, 0.5.
\<close>

theorem progress_relayed_clamped_in_order:
  "(i < length (calls (run es newService)) \<and> atRace (pc (calls (run es newService) ! i))
      \<and> \<not> cancelRequested (calls (run es newService) ! i)
    \<longrightarrow> progress (calls (run (es @ map (EngineProgress i) vs) newService) ! i) =
          progress (calls (run es newService) ! i)
            @ map (\<lambda>v. Math_min (Math_max v (Finite 0)) (Finite 1)) vs)
   \<and> map (\<lambda>v. Math_min (Math_max v (Finite 0)) (Finite 1)) [Finite (- 0.2), Finite 1.4, Finite 0.5]
       = [Finite 0, Finite 1, Finite 0.5]"
proof (intro conjI impI)
  assume a: "i < length (calls (run es newService)) \<and> atRace (pc (calls (run es newService) ! i))
      \<and> \<not> cancelRequested (calls (run es newService) ! i)"
  then have "callInv (calls (run es newService) ! i)"
    by (simp add: reachable_callInv)
  then have "onProgress (calls (run es newService) ! i)"
    using a by (simp add: callInv_def)
  then show "progress (calls (run (es @ map (EngineProgress i) vs) newService) ! i) =
          progress (calls (run es newService) ! i)
            @ map (\<lambda>v. Math_min (Math_max v (Finite 0)) (Finite 1)) vs"
    using a by (simp add: run_append engineProgress_relays)
next
  show "map (\<lambda>v. Math_min (Math_max v (Finite 0)) (Finite 1)) [Finite (- 0.2), Finite 1.4, Finite 0.5]
       = [Finite 0, Finite 1, Finite 0.5]"
    by simp
qed

theorem progress_relayed_clamped_in_order_witness:
  "progress (calls (run (([ConvertCalled clip mp3 ProbeThrows] @ untilDetecting 0 @ untilExecuting 0)
                          @ map (EngineProgress 0) [Finite (- 0.2), Finite 1.4, Finite 0.5, NaN])
                     newService) ! 0)
   = [Finite 0, Finite 0, Finite 1, Finite 0.5, NaN]"
proof -
  let ?es = "[ConvertCalled clip mp3 ProbeThrows] @ untilDetecting 0 @ untilExecuting 0"
  have pre: "0 < length (calls (run ?es newService)) \<and> atRace (pc (calls (run ?es newService) ! 0))
      \<and> \<not> cancelRequested (calls (run ?es newService) ! 0)"
    by (simp add: service_eval)
  have start: "progress (calls (run ?es newService) ! 0) = [Finite 0]"
    by (simp add: service_eval)
  show ?thesis
    using progress_relayed_clamped_in_order
      [of 0 ?es "[Finite (- 0.2), Finite 1.4, Finite 0.5, NaN]"] pre start
    by simp
qed

text \<open>
  Where the words of C5 fail: a value the engine delivers while the call is suspended
  in the race is not relayed once \<^verbatim>\<open>cancelConversion\<close> has been called, be it during
  the race or, as in the second run, before \<^verbatim>\<open>execute\<close> was invoked.
\<close>

theorem progress_after_cancel_counterexample:
  "(let s = run ([ConvertCalled clip mp3 ProbeThrows] @ untilDetecting 0 @ untilExecuting 0
                 @ [CancelConversionCalled, EngineProgress 0 (Finite 0.5)]) newService
    in atRace (pc (calls s ! 0)) \<and> settled (calls s ! 0) = None
       \<and> progress (calls s ! 0) = [Finite 0])
   \<and> (let s = run ([ConvertCalled clip mp3 ProbeThrows] @ untilDetecting 0
                 @ [CancelConversionCalled] @ untilExecuting 0
                 @ [EngineProgress 0 (Finite 0.5)]) newService
    in atRace (pc (calls s ! 0)) \<and> last (engineCalls (calls s ! 0)) = Execute
       \<and> settled (calls s ! 0) = None \<and> progress (calls s ! 0) = [Finite 0])"
  by (simp add: service_eval)

lemma resume_cancelled_keeps:
  assumes "callInv c" "cancelRequested c"
  shows "cancelRequested (fst (resume p c)) \<and> progress (fst (resume p c)) = progress c"
proof (cases p c rule: resume_cases)
  case (support sp b)
  then show ?thesis using assms by (simp add: callInv_def inTry_def)
next
  case (buffer sp bytes)
  then show ?thesis using assms by (simp add: callInv_def inTry_def)
next
  case (nobuffer sp e)
  then show ?thesis using assms by (simp add: callInv_def inTry_def)
qed (use assms in \<open>simp_all add: stage_defs effect_defs Let_def cancel_noop split: option.splits\<close>)

lemma step_cancelled_keeps:
  assumes "serviceInv s" "i < length (calls s)" "cancelRequested (calls s ! i)"
  shows "i < length (calls (step e s)) \<and> cancelRequested (calls (step e s) ! i)
         \<and> progress (calls (step e s) ! i) = progress (calls s ! i)"
proof (cases e)
  case (ConvertCalled f fid env)
  then show ?thesis using assms convert_nth[of i s f fid env] by simp
next
  case (Resumed j p)
  have "callInv (calls s ! i)" using assms by (simp add: serviceInv_def list_all_nth)
  then show ?thesis using assms resume_cancelled_keeps[of "calls s ! i" p]
    by (auto simp: Resumed resumeCall_def nth_list_update split: prod.splits)
next
  case CancelConversionCalled
  then show ?thesis using assms
    by (auto simp: cancelConversion_def nth_list_update cancel_noop split: option.splits)
next
  case (EngineProgress j v)
  then show ?thesis using assms
    by (auto simp: engineProgress_def nth_list_update progressHandler_def)
qed

lemma run_cancelled_keeps:
  "serviceInv s \<Longrightarrow> i < length (calls s) \<Longrightarrow> cancelRequested (calls s ! i)
   \<Longrightarrow> i < length (calls (run es s)) \<and> cancelRequested (calls (run es s) ! i)
       \<and> progress (calls (run es s) ! i) = progress (calls s ! i)"
proof (induction es arbitrary: s)
  case Nil
  then show ?case by (simp add: run_def)
next
  case (Cons e es)
  have "run (e # es) s = run es (step e s)" by (simp add: run_def)
  then show ?case
    using Cons.IH[of "step e s"] step_cancelled_keeps[OF Cons.prems, of e]
      serviceInv_step[OF Cons.prems(1), of e]
    by simp
qed

text \<open>
  C9. Once cancellation has been requested for a call, whatever happens afterwards
  (values from the engine, the call resumed, other calls) the list of ratios given to
  its progress callback stays as it was: no engine value is relayed any more, and no
  final 1 either.
\<close>

theorem no_progress_after_cancel:
  "i < length (calls (run es newService)) \<and> cancelRequested (calls (run es newService) ! i)
   \<longrightarrow> progress (calls (run (es @ es') newService) ! i) =
        progress (calls (run es newService) ! i)"
  using run_cancelled_keeps[OF serviceInv_run[OF serviceInv_newService], of i es es']
  by (simp add: run_append)

theorem no_progress_after_cancel_witness:
  "cancelRequested (calls (run ([ConvertCalled clip mp3 ProbeThrows] @ untilDetecting 0
                                 @ untilExecuting 0 @ [CancelConversionCalled]) newService) ! 0)
   \<and> progress (calls (run (([ConvertCalled clip mp3 ProbeThrows] @ untilDetecting 0
                              @ untilExecuting 0 @ [CancelConversionCalled])
                            @ [EngineProgress 0 (Finite 0.5), EngineProgress 0 (Finite 0.9),
                               Resumed 0 (ExecuteFulfilled (Some [7, 8]))]) newService) ! 0)
     = [Finite 0]"
proof -
  let ?es = "[ConvertCalled clip mp3 ProbeThrows] @ untilDetecting 0
              @ untilExecuting 0 @ [CancelConversionCalled]"
  have pre: "0 < length (calls (run ?es newService)) \<and> cancelRequested (calls (run ?es newService) ! 0)"
    by (simp add: service_eval)
  have start: "progress (calls (run ?es newService) ! 0) = [Finite 0]"
    by (simp add: service_eval)
  show ?thesis
    using no_progress_after_cancel
      [of 0 ?es "[EngineProgress 0 (Finite 0.5), EngineProgress 0 (Finite 0.9),
                  Resumed 0 (ExecuteFulfilled (Some [7, 8]))]"] pre start
    by simp
qed

subsection \<open>C6: cancelConversion twice, and after the end\<close>




subsection \<open>C10: the result has no remote URL\<close>

text \<open>
  C10. Whatever the service has gone through, a call that settled with a result has a
  result without remote URL: it carries a blob whose type is the MIME type of the
  result, which is the MIME type of the format the call selected.
\<close>

theorem result_has_no_remoteUrl:
  "i < length (calls (run es newService)) \<and> settled (calls (run es newService) ! i) = Some (Inr r)
   \<longrightarrow> remoteUrl r = None \<and> blob_type (blob r) = mimeType r
       \<and> map_option AudioFormatSpec.mimeType
            (AUDIO_FORMAT_SPECS (formatId (calls (run es newService) ! i))) = Some (mimeType r)"
  using reachable_callInv[of i es] by (auto simp: callInv_def resultOk_def)

theorem result_has_no_remoteUrl_witness:
  "(\<exists>r. settled (calls (run ([ConvertCalled clip wav ProbeThrows] @ untilDetecting 0
                              @ untilExecuting 0 @ [Resumed 0 (ExecuteFulfilled (Some [7, 8]))])
                         newService) ! 0) = Some (Inr r)
        \<and> remoteUrl r = None \<and> blob_type (blob r) = ''audio/wav'' \<and> mimeType r = ''audio/wav'')"
proof -
  let ?es = "[ConvertCalled clip wav ProbeThrows] @ untilDetecting 0
              @ untilExecuting 0 @ [Resumed 0 (ExecuteFulfilled (Some [7, 8]))]"
  obtain r where r: "settled (calls (run ?es newService) ! 0) = Some (Inr r)"
    by (simp add: service_eval)
  have pre: "0 < length (calls (run ?es newService))"
    "formatId (calls (run ?es newService) ! 0) = wav"
    by (simp_all add: service_eval)
  have "remoteUrl r = None \<and> blob_type (blob r) = mimeType r
       \<and> map_option AudioFormatSpec.mimeType
            (AUDIO_FORMAT_SPECS (formatId (calls (run ?es newService) ! 0))) = Some (mimeType r)"
    using result_has_no_remoteUrl[of 0 ?es r] pre r by blast
  then have "remoteUrl r = None \<and> blob_type (blob r) = ''audio/wav'' \<and> mimeType r = ''audio/wav''"
    using pre by simp
  then show ?thesis using r by blast
qed


end
